theory Spec2Isabelle
  imports Complex_Main
begin

section \<open>Electric vehicle charge optimisation: the cost and constraint model\<close>

text \<open>
  The repository consists of two notebooks. Model 1
  (\<^verbatim>\<open>08_31_Model_1_charge_profile_based_on_electricity_cost.ipynb\<close>) states a linear
  program for OR-Tools' GLOP; Model 2
  (\<^verbatim>\<open>09_02_Model_2_charge_profile_with_charge_dependant_battery_degradation.ipynb\<close>)
  states a nonlinear program for \<^verbatim>\<open>scipy.optimize.minimize\<close>. Both read their parameters
  from module-level constants. The embedding passes these constants as a record, so
  that a statement can speak about the notebooks as they are (the records \<open>model1\<close> and
  \<open>model2\<close> below) and about the same cells run with other constants.

  Python floats are idealised as real numbers throughout: rounding, overflow to
  \<^verbatim>\<open>inf\<close> and \<^verbatim>\<open>nan\<close> of IEEE doubles are not part of this model. In particular
  numpy's division by a zero \<^verbatim>\<open>CHARGE_POWER_HIGHER_BOUND_KWH\<close> (which gives \<^verbatim>\<open>inf\<close> or
  \<^verbatim>\<open>nan\<close>, not an exception) has no counterpart here, so a statement on the value of
  the degradation function is made for a non-zero bound.
\<close>

subsection \<open>The module constants\<close>

text \<open>
  \<open>T_MIN\<close> and \<open>T_MAX\<close> are hour indices. They only occur as repeat counts of list
  literals, as slice bounds and in comparisons with \<open>range(24)\<close> indices. With natural
  numbers the truncating subtraction \<open>T_MAX - T_MIN\<close> gives \<open>0\<close> where Python computes
  a negative repeat count, and Python's \<^verbatim>\<open>[x]*n\<close> is the empty list for every \<open>n \<le> 0\<close>,
  so \<open>replicate\<close> on the truncated difference is the list Python builds.

  The two literals of \<^verbatim>\<open>degradation_function\<close>, which its comment calls the arbitrary
  parameters a and b, are the fields \<open>DEGRADATION_A\<close> and \<open>DEGRADATION_B\<close>.
\<close>

record config =
  ELECTRICITY_COSTS :: "real list"
  STATE_OF_CHARGE_T0 :: real
  STATE_OF_CHARGE_TCH :: real
  Q_KWH :: real
  CHARGE_POWER_LOWER_BOUND_KWH :: real
  CHARGE_POWER_HIGHER_BOUND_KWH :: real
  DEGRADATION_A :: real
  DEGRADATION_B :: real
  T_MIN :: nat
  T_MAX :: nat

definition LOW_COST :: real where
  "LOW_COST = 0.1377"

definition HIGH_COST :: real where
  "HIGH_COST = 0.1781"

definition tarif_bleu :: "real list" where
  "tarif_bleu = replicate 5 LOW_COST @ replicate 4 HIGH_COST
                @ replicate 10 LOW_COST @ replicate 5 HIGH_COST"

definition model2 :: config where
  "model2 = \<lparr> ELECTRICITY_COSTS = tarif_bleu,
              STATE_OF_CHARGE_T0 = 0.30,
              STATE_OF_CHARGE_TCH = 0.90,
              Q_KWH = 30,
              CHARGE_POWER_LOWER_BOUND_KWH = - 6.6,
              CHARGE_POWER_HIGHER_BOUND_KWH = 6.6,
              DEGRADATION_A = 10 powr (- 5),
              DEGRADATION_B = 0.05,
              T_MIN = 1,
              T_MAX = 22 \<rparr>"

text \<open>
  Model 1 has the same constants but for the lower power bound, which is zero (no V2G).
  It has no degradation function; its cell reads neither \<open>DEGRADATION_A\<close> nor
  \<open>DEGRADATION_B\<close>.
\<close>

definition model1 :: config where
  "model1 = model2 \<lparr> CHARGE_POWER_LOWER_BOUND_KWH := 0 \<rparr>"

definition BATTERY_COST :: "config \<Rightarrow> real" where
  "BATTERY_COST cfg = Q_KWH cfg * 156 * 0.84"

subsection \<open>Model 2, cell 2 and cell 4: the objective\<close>

text \<open>Python's builtin \<^verbatim>\<open>sum\<close> adds from the left, starting at 0.\<close>

definition py_sum :: "real list \<Rightarrow> real" where
  "py_sum xs = foldl (+) 0 xs"

definition degradation_function :: "config \<Rightarrow> real \<Rightarrow> real" where
  "degradation_function cfg p' =
     DEGRADATION_A cfg * exp (DEGRADATION_B cfg * \<bar>p'\<bar> / CHARGE_POWER_HIGHER_BOUND_KWH cfg)"

text \<open>\<^verbatim>\<open>zip\<close> stops at the shorter of its arguments, in Python as in HOL.\<close>

definition cost_electricity :: "config \<Rightarrow> real list \<Rightarrow> real" where
  "cost_electricity cfg p = py_sum (map (\<lambda>(p', ep). p' * ep) (zip p (ELECTRICITY_COSTS cfg)))"

definition cost_degradation :: "config \<Rightarrow> real list \<Rightarrow> real" where
  "cost_degradation cfg p = BATTERY_COST cfg * py_sum (map (degradation_function cfg) p)"

definition cost_charge :: "config \<Rightarrow> real list \<Rightarrow> real" where
  "cost_charge cfg p =
     (let ce = cost_electricity cfg p;
          cd = cost_degradation cfg p
      in ce + cd)"

subsection \<open>Model 2, cell 4: box bounds and the linear constraint\<close>

text \<open>
  \<^verbatim>\<open>lb = [0]*T_MIN + [CHARGE_POWER_LOWER_BOUND_KWH]*(T_MAX-T_MIN) + [0]*(24-T_MAX)\<close>,
  and \<^verbatim>\<open>ub\<close> alike; \<^verbatim>\<open>bounds = Bounds(lb, ub)\<close>.
\<close>

record Bounds =
  b_lb :: "real list"
  b_ub :: "real list"

definition lb_bounds :: "config \<Rightarrow> real list" where
  "lb_bounds cfg =
     replicate (T_MIN cfg) 0
     @ replicate (T_MAX cfg - T_MIN cfg) (CHARGE_POWER_LOWER_BOUND_KWH cfg)
     @ replicate (24 - T_MAX cfg) 0"

definition ub_bounds :: "config \<Rightarrow> real list" where
  "ub_bounds cfg =
     replicate (T_MIN cfg) 0
     @ replicate (T_MAX cfg - T_MIN cfg) (CHARGE_POWER_HIGHER_BOUND_KWH cfg)
     @ replicate (24 - T_MAX cfg) 0"

definition bounds :: "config \<Rightarrow> Bounds" where
  "bounds cfg = \<lparr> b_lb = lb_bounds cfg, b_ub = ub_bounds cfg \<rparr>"

text \<open>
  The numpy calls of the cell. \<^verbatim>\<open>np.tril\<close> of a one-dimensional array \<open>v\<close> of length
  \<open>n\<close> masks with \<^verbatim>\<open>tri(n)\<close> and broadcasts \<open>v\<close> along the rows: the result is the
  \<open>n \<times> n\<close> array with \<open>v[j]\<close> at row \<open>i\<close>, column \<open>j \<le> i\<close>, and zero above the
  diagonal. \<^verbatim>\<open>reshape\<close> reads the array in row-major order and raises ValueError when
  the number of entries is not the product of the new shape.
\<close>

text \<open>
  Exceptions: \<open>ValueError\<close> and \<open>IndexError\<close> are Python's; \<open>SolverError\<close> stands for
  whatever the solver may raise.
\<close>

datatype py_error = ValueError | IndexError | SolverError

definition np_tril :: "int list \<Rightarrow> int list list" where
  "np_tril v =
     (let n = length v
      in map (\<lambda>i. map (\<lambda>j. if j \<le> i then v ! j else 0) [0..<n]) [0..<n])"

definition np_reshape :: "int list list \<Rightarrow> nat \<times> nat \<Rightarrow> py_error + int list list" where
  "np_reshape a shape =
     (case shape of (r, c) \<Rightarrow>
        let flat = concat a
        in if length flat = r * c
           then Inr (map (\<lambda>i. take c (drop (i * c) flat)) [0..<r])
           else Inl ValueError)"

definition np_ones :: "nat \<Rightarrow> real list" where
  "np_ones n = replicate n 1"

definition np_times :: "real list \<Rightarrow> real \<Rightarrow> real list" where
  "np_times a c = map (\<lambda>x. x * c) a"

text \<open>\<^verbatim>\<open>a[k:] = v\<close> for a scalar \<open>v\<close> and \<open>k \<ge> 0\<close>; nothing is assigned when
  \<open>k\<close> is the length or beyond.\<close>

definition assign_from :: "real list \<Rightarrow> nat \<Rightarrow> real \<Rightarrow> real list" where
  "assign_from a k v = take k a @ replicate (length a - k) v"

definition m :: "py_error + int list list" where
  "m = np_reshape (np_tril (replicate 24 1)) (24, 24)"

definition lb_linear :: "config \<Rightarrow> real list" where
  "lb_linear cfg =
     (let lb = np_times (np_ones 24) (- STATE_OF_CHARGE_T0 cfg * Q_KWH cfg)
      in assign_from lb (T_MAX cfg)
           ((STATE_OF_CHARGE_TCH cfg - STATE_OF_CHARGE_T0 cfg) * Q_KWH cfg))"

definition ub_linear :: "config \<Rightarrow> real list" where
  "ub_linear cfg = np_times (np_ones 24) ((1 - STATE_OF_CHARGE_T0 cfg) * Q_KWH cfg)"

text \<open>\<^verbatim>\<open>LinearConstraint(m.tolist(), lb, ub)\<close>; scipy stores the matrix as floats.\<close>

record LinearConstraint =
  lc_A :: "real list list"
  lc_lb :: "real list"
  lc_ub :: "real list"

definition linear_constraint :: "config \<Rightarrow> py_error + LinearConstraint" where
  "linear_constraint cfg =
     (case m of
        Inl e \<Rightarrow> Inl e
      | Inr M \<Rightarrow> Inr \<lparr> lc_A = map (map real_of_int) M,
                       lc_lb = lb_linear cfg,
                       lc_ub = ub_linear cfg \<rparr>)"

text \<open>
  What the two scipy objects demand of a candidate \<open>x\<close>: \<open>lb \<le> x \<le> ub\<close> entry by
  entry, and \<open>lb \<le> A @ x \<le> ub\<close> entry by entry. \<open>list_all2\<close> is false on lists of
  different lengths.
\<close>

definition within_bounds :: "Bounds \<Rightarrow> real list \<Rightarrow> bool" where
  "within_bounds b x = (list_all2 (\<le>) (b_lb b) x \<and> list_all2 (\<le>) x (b_ub b))"

definition dot :: "real list \<Rightarrow> real list \<Rightarrow> real" where
  "dot row x = sum_list (map (\<lambda>(a, b). a * b) (zip row x))"

definition matmul :: "real list list \<Rightarrow> real list \<Rightarrow> real list" where
  "matmul a x = map (\<lambda>row. dot row x) a"

definition within_linear :: "LinearConstraint \<Rightarrow> real list \<Rightarrow> bool" where
  "within_linear lc x =
     (list_all2 (\<le>) (lc_lb lc) (matmul (lc_A lc) x)
      \<and> list_all2 (\<le>) (matmul (lc_A lc) x) (lc_ub lc))"

definition model2_feasible :: "config \<Rightarrow> real list \<Rightarrow> bool" where
  "model2_feasible cfg x =
     (case linear_constraint cfg of
        Inl e \<Rightarrow> False
      | Inr lc \<Rightarrow> length x = 24 \<and> within_bounds (bounds cfg) x \<and> within_linear lc x)"

text \<open>\<^verbatim>\<open>np.cumsum\<close>: the running sums.\<close>

fun running_sums :: "real \<Rightarrow> real list \<Rightarrow> real list" where
  "running_sums acc [] = []"
| "running_sums acc (x # xs) = (acc + x) # running_sums (acc + x) xs"

definition np_cumsum :: "real list \<Rightarrow> real list" where
  "np_cumsum xs = running_sums 0 xs"

subsection \<open>Model 2, cells 5 and 6: the solver call and the report\<close>

text \<open>
  \<^verbatim>\<open>scipy.optimize.minimize\<close> is outside the repository. It is a parameter of the
  model: any function from the objective, the initial guess, the constraints and the
  bounds to either an exception or a result object. Of the result object the notebook
  reads \<^verbatim>\<open>x\<close> only; \<open>res_status\<close> is scipy's termination status for
  \<^verbatim>\<open>trust-constr\<close> (0: the iteration budget is exhausted, 1 and 2: a tolerance is met).
\<close>

record OptimizeResult =
  res_x :: "real list"
  res_status :: int

type_synonym minimizer =
  "(real list \<Rightarrow> real) \<Rightarrow> real list \<Rightarrow> LinearConstraint list \<Rightarrow> Bounds
     \<Rightarrow> py_error + OptimizeResult"

definition p0 :: "real list" where
  "p0 = replicate 24 1"

definition res :: "config \<Rightarrow> minimizer \<Rightarrow> py_error + OptimizeResult" where
  "res cfg minimize =
     (case linear_constraint cfg of
        Inl e \<Rightarrow> Inl e
      | Inr lc \<Rightarrow> minimize (cost_charge cfg) p0 [lc] (bounds cfg))"

text \<open>
  \<^verbatim>\<open>round(r, ndigits)\<close> on a float: the nearest multiple of \<open>10\<close> to the \<open>-ndigits\<close>,
  a tie going to the even neighbour.
\<close>

definition rint :: "real \<Rightarrow> int" where
  "rint r =
     (let f = \<lfloor>r\<rfloor>; d = r - of_int f
      in if d < 1 / 2 then f
         else if 1 / 2 < d then f + 1
         else if even f then f else f + 1)"

definition py_round :: "real \<Rightarrow> nat \<Rightarrow> real" where
  "py_round r ndigits = of_int (rint (r * 10 ^ ndigits)) / 10 ^ ndigits"

text \<open>Cell 6 prints a heading, the rounded profile, the resulting charge and the costs.\<close>

record report =
  heading :: string
  profile :: "real list"
  vehicle_charge :: "real list"
  total_balance :: real
  electricity :: real
  degradation :: real

definition solution :: "OptimizeResult \<Rightarrow> real list" where
  "solution r = map (\<lambda>rx. py_round rx 2) (res_x r)"

definition print_report :: "config \<Rightarrow> OptimizeResult \<Rightarrow> report" where
  "print_report cfg r =
     \<lparr> heading = ''Optimal charge profile (kWh):'',
       profile = solution r,
       vehicle_charge =
         map (\<lambda>c. c + Q_KWH cfg * STATE_OF_CHARGE_T0 cfg) (np_cumsum (solution r)),
       total_balance = py_round (cost_charge cfg (res_x r)) 1,
       electricity = py_round (cost_electricity cfg (res_x r)) 1,
       degradation = py_round (cost_degradation cfg (res_x r)) 1 \<rparr>"

text \<open>The notebook run from the constants to the report: cell 6 runs when cell 5 returned.\<close>

definition notebook2 :: "config \<Rightarrow> minimizer \<Rightarrow> py_error + report" where
  "notebook2 cfg minimize =
     (case res cfg minimize of
        Inl e \<Rightarrow> Inl e
      | Inr r \<Rightarrow> Inr (print_report cfg r))"

text \<open>
  A stand-in for the solver, to run the notebook on: it stops before its first step
  and returns the initial guess with status 0, as a solver whose iteration budget is
  exhausted at once.
\<close>

definition gives_up :: minimizer where
  "gives_up f x0 cs b = Inr \<lparr> res_x = x0, res_status = 0 \<rparr>"

subsection \<open>Model 1, cell 4: the linear program\<close>

text \<open>
  A \<^verbatim>\<open>NumVar(lb, ub, name)\<close> is the pair of its bounds; a variable is known by its
  position in \<^verbatim>\<open>variables\<close>. A \<^verbatim>\<open>Constraint(lb, ub, name)\<close> holds its bounds and the
  coefficients set on it.
\<close>

definition variables :: "config \<Rightarrow> (real \<times> real) list" where
  "variables cfg =
     map (\<lambda>i. if i < T_MIN cfg \<or> T_MAX cfg \<le> i then (0, 0)
              else (CHARGE_POWER_LOWER_BOUND_KWH cfg, CHARGE_POWER_HIGHER_BOUND_KWH cfg))
         [0..<24]"

record Constraint =
  ct_lb :: real
  ct_ub :: real
  ct_coefficients :: "(nat \<times> real) list"

text \<open>\<^verbatim>\<open>for variable in variables[:k]: ct.SetCoefficient(variable, 1)\<close>\<close>

definition set_coefficients :: "nat \<Rightarrow> (nat \<times> real) list" where
  "set_coefficients k = map (\<lambda>v. (v, 1)) (take k [0..<24])"

definition ct_charge_vehicle_before_tmax :: "config \<Rightarrow> Constraint" where
  "ct_charge_vehicle_before_tmax cfg =
     \<lparr> ct_lb = Q_KWH cfg * (STATE_OF_CHARGE_TCH cfg - STATE_OF_CHARGE_T0 cfg),
       ct_ub = Q_KWH cfg * (1 - STATE_OF_CHARGE_T0 cfg),
       ct_coefficients = set_coefficients (T_MAX cfg) \<rparr>"

definition ct_bounded_charge :: "config \<Rightarrow> nat \<Rightarrow> Constraint" where
  "ct_bounded_charge cfg i =
     \<lparr> ct_lb = - Q_KWH cfg * STATE_OF_CHARGE_T0 cfg,
       ct_ub = Q_KWH cfg * (1 - STATE_OF_CHARGE_T0 cfg),
       ct_coefficients = set_coefficients i \<rparr>"

definition constraints :: "config \<Rightarrow> Constraint list" where
  "constraints cfg =
     ct_charge_vehicle_before_tmax cfg # map (ct_bounded_charge cfg) [1..<25]"

text \<open>\<^verbatim>\<open>objective.SetCoefficient(variable, ELECTRICITY_COSTS[i])\<close>, for each variable.\<close>

definition objective :: "config \<Rightarrow> py_error + real list" where
  "objective cfg =
     (if length (ELECTRICITY_COSTS cfg) < 24 then Inl IndexError
      else Inr (map (\<lambda>i. ELECTRICITY_COSTS cfg ! i) [0..<24]))"

text \<open>What the linear program demands of the values \<open>x\<close> of the variables.\<close>

definition within_var :: "real \<times> real \<Rightarrow> real \<Rightarrow> bool" where
  "within_var v x = (fst v \<le> x \<and> x \<le> snd v)"

definition ct_sum :: "Constraint \<Rightarrow> real list \<Rightarrow> real" where
  "ct_sum ct x = sum_list (map (\<lambda>(v, c). c * x ! v) (ct_coefficients ct))"

definition within_ct :: "Constraint \<Rightarrow> real list \<Rightarrow> bool" where
  "within_ct ct x = (ct_lb ct \<le> ct_sum ct x \<and> ct_sum ct x \<le> ct_ub ct)"

definition model1_feasible :: "config \<Rightarrow> real list \<Rightarrow> bool" where
  "model1_feasible cfg x =
     (list_all2 within_var (variables cfg) x \<and> list_all (\<lambda>ct. within_ct ct x) (constraints cfg))"

definition objective_value :: "config \<Rightarrow> real list \<Rightarrow> py_error + real" where
  "objective_value cfg x =
     (case objective cfg of
        Inl e \<Rightarrow> Inl e
      | Inr coeffs \<Rightarrow> Inr (dot coeffs x))"

text \<open>\<open>v\<close> is the least value of \<open>f\<close> over the set that \<open>F\<close> accepts, and it is attained.\<close>

definition is_minimum :: "(real list \<Rightarrow> bool) \<Rightarrow> (real list \<Rightarrow> real) \<Rightarrow> real \<Rightarrow> bool" where
  "is_minimum F f v = (\<exists>x. F x \<and> f x = v \<and> (\<forall>y. F y \<longrightarrow> v \<le> f y))"

subsection \<open>The zero-degradation reduction\<close>

text \<open>
  The two changes under which Model 2 is compared with Model 1: the base rate of the
  degradation function is zero and the lower power bound is zero. \<open>reduced_t24\<close> is
  the notebook so changed, with a plug-in window that ends at the end of the day.
\<close>

definition no_degradation_no_v2g :: "config \<Rightarrow> config" where
  "no_degradation_no_v2g cfg = cfg \<lparr> CHARGE_POWER_LOWER_BOUND_KWH := 0, DEGRADATION_A := 0 \<rparr>"

definition reduced_t24 :: config where
  "reduced_t24 = no_degradation_no_v2g (model2 \<lparr> T_MAX := 24 \<rparr>)"

section \<open>Properties\<close>

subsection \<open>Auxiliary facts\<close>

lemma foldl_add_start: "foldl (+) a xs = a + sum_list xs" for a :: real
  by (induction xs arbitrary: a) simp_all

lemma py_sum_sum_list: "py_sum xs = sum_list xs"
  by (simp add: py_sum_def foldl_add_start)

lemma length_tarif_bleu: "length tarif_bleu = 24"
  by (simp add: tarif_bleu_def)

lemma sum_list_map_nth: "sum_list (map f xs) = (\<Sum>i<length xs. f (xs ! i))"
  for f :: "'a \<Rightarrow> real"
  by (simp add: sum_list_sum_nth atLeast0LessThan)

lemma sum_list_take: "k \<le> length x \<Longrightarrow> sum_list (take k x) = (\<Sum>i<k. x ! i)"
  for x :: "real list"
  by (simp add: sum_list_sum_nth atLeast0LessThan)

lemma zip_take_right: "zip (take (length ys) xs) ys = zip xs ys"
proof -
  have "zip xs ys = take (length ys) (zip xs ys)"
    by simp
  also have "\<dots> = zip (take (length ys) xs) (take (length ys) ys)"
    by (rule take_zip)
  finally show ?thesis by simp
qed

lemma sum_list_zip_zeros:
  "sum_list (map (\<lambda>(a, b). a * b) (zip (replicate n 0) ys)) = (0::real)"
proof (induction n arbitrary: ys)
  case 0
  then show ?case by simp
next
  case (Suc n)
  then show ?case by (cases ys) simp_all
qed

lemma cost_electricity_take:
  "cost_electricity cfg (take (length (ELECTRICITY_COSTS cfg)) p) = cost_electricity cfg p"
  unfolding cost_electricity_def zip_take_right ..

lemma cost_electricity_sum:
  assumes "length p = 24" and "length (ELECTRICITY_COSTS cfg) = 24"
  shows "cost_electricity cfg p = (\<Sum>i<24. p ! i * ELECTRICITY_COSTS cfg ! i)"
proof -
  have "cost_electricity cfg p
      = (\<Sum>i<length (zip p (ELECTRICITY_COSTS cfg)).
           (\<lambda>(a, b). a * b) (zip p (ELECTRICITY_COSTS cfg) ! i))"
    unfolding cost_electricity_def py_sum_sum_list sum_list_map_nth ..
  also have "\<dots> = (\<Sum>i<24. p ! i * ELECTRICITY_COSTS cfg ! i)"
    using assms by simp
  finally show ?thesis .
qed

lemma cost_degradation_sum:
  "cost_degradation cfg p
     = BATTERY_COST cfg * (\<Sum>i<length p. degradation_function cfg (p ! i))"
  unfolding cost_degradation_def py_sum_sum_list sum_list_map_nth ..

lemma DEGRADATION_A_model2: "DEGRADATION_A model2 = 1 / 100000"
  by (simp add: model2_def powr_minus inverse_eq_divide)

lemma length_costs_model2: "length (ELECTRICITY_COSTS model2) = 24"
  by (simp add: model2_def length_tarif_bleu)

subsection \<open>The matrix of the linear constraint\<close>

lemma np_tril_ones:
  "np_tril (replicate n 1) = map (\<lambda>i. map (\<lambda>j. if j \<le> i then 1 else 0) [0..<n]) [0..<n]"
  by (simp add: np_tril_def)

lemma chunks_concat:
  "(\<forall>row \<in> set rows. length row = c)
   \<Longrightarrow> map (\<lambda>i. take c (drop (i * c) (concat rows))) [0..<length rows] = rows"
proof (induction rows)
  case Nil
  then show ?case by simp
next
  case (Cons row rows)
  have len: "length row = c"
    using Cons.prems by simp
  have "map (\<lambda>i. take c (drop (i * c) (concat (row # rows)))) [0..<length (row # rows)]
      = take c (concat (row # rows))
        # map (\<lambda>i. take c (drop (Suc i * c) (concat (row # rows)))) [0..<length rows]"
    by (simp add: upt_conv_Cons map_Suc_upt [symmetric] del: upt_Suc)
  also have "take c (concat (row # rows)) = row"
    using len by simp
  also have "map (\<lambda>i. take c (drop (Suc i * c) (concat (row # rows)))) [0..<length rows]
      = map (\<lambda>i. take c (drop (i * c) (concat rows))) [0..<length rows]"
    using len by simp
  also have "\<dots> = rows"
    using Cons by simp
  finally show ?case .
qed

lemma length_concat_uniform:
  "(\<forall>row \<in> set rows. length row = c) \<Longrightarrow> length (concat rows) = length rows * c"
  by (induction rows) simp_all

lemma np_reshape_same_shape:
  assumes "\<forall>row \<in> set rows. length row = c"
  shows "np_reshape rows (length rows, c) = Inr rows"
  using assms by (simp add: np_reshape_def length_concat_uniform chunks_concat)

lemma m_rows: "m = Inr (map (\<lambda>i. map (\<lambda>j. if j \<le> i then 1 else 0) [0..<24]) [0..<24])"
proof -
  let ?rows = "map (\<lambda>i. map (\<lambda>j. if j \<le> i then 1 else 0) [0..<24]) [0..<24] :: int list list"
  have rows: "\<forall>row \<in> set ?rows. length row = 24"
    by auto
  have len: "length ?rows = 24"
    by (simp only: length_map length_upt diff_zero)
  have "np_reshape ?rows (length ?rows, 24) = Inr ?rows"
    using rows by (rule np_reshape_same_shape)
  then have "np_reshape ?rows (24, 24) = Inr ?rows"
    by (simp only: len)
  then show ?thesis
    by (simp only: m_def np_tril_ones)
qed

lemma dot_nth: "length row = length x \<Longrightarrow> dot row x = (\<Sum>i<length x. row ! i * x ! i)"
  by (simp add: dot_def sum_list_map_nth)

lemma dot_indicator_row:
  assumes "k < length x"
  shows "dot (map real_of_int (map (\<lambda>j. if j \<le> k then 1 else 0) [0..<length x])) x
       = sum_list (take (Suc k) x)"
proof -
  have "dot (map real_of_int (map (\<lambda>j. if j \<le> k then 1 else 0) [0..<length x])) x
      = (\<Sum>i<length x. (if i \<le> k then x ! i else 0))"
    by (subst dot_nth, simp, rule sum.cong, simp_all)
  also have "\<dots> = (\<Sum>i \<in> {..<length x} \<inter> {i. i \<le> k}. x ! i)"
    by (simp add: sum.If_cases)
  also have "{..<length x} \<inter> {i. i \<le> k} = {..<Suc k}"
    using assms by auto
  also have "(\<Sum>i<Suc k. x ! i) = sum_list (take (Suc k) x)"
    using assms by (simp add: sum_list_take)
  finally show ?thesis .
qed

lemma running_sums_length: "length (running_sums a xs) = length xs"
  by (induction xs arbitrary: a) simp_all

lemma running_sums_nth:
  "k < length xs \<Longrightarrow> running_sums a xs ! k = a + sum_list (take (Suc k) xs)"
proof (induction xs arbitrary: a k)
  case Nil
  then show ?case by simp
next
  case (Cons x xs)
  then show ?case by (cases k) simp_all
qed

lemma np_cumsum_length: "length (np_cumsum xs) = length xs"
  by (simp add: np_cumsum_def running_sums_length)

lemma np_cumsum_nth: "k < length xs \<Longrightarrow> np_cumsum xs ! k = sum_list (take (Suc k) xs)"
  by (simp add: np_cumsum_def running_sums_nth)

lemma matmul_tril_nth:
  "k < length p
   \<Longrightarrow> matmul (map (map real_of_int)
         (map (\<lambda>i. map (\<lambda>j. if j \<le> i then 1 else 0) [0..<length p]) [0..<length p])) p ! k
       = sum_list (take (Suc k) p)"
  by (simp add: matmul_def dot_indicator_row del: map_map)

lemma matmul_tril_cumsum:
  "matmul (map (map real_of_int)
         (map (\<lambda>i. map (\<lambda>j. if j \<le> i then 1 else 0) [0..<length p]) [0..<length p])) p
   = np_cumsum p"
proof (rule nth_equalityI)
  show "length (matmul (map (map real_of_int)
         (map (\<lambda>i. map (\<lambda>j. if j \<le> i then 1 else 0) [0..<length p]) [0..<length p])) p)
      = length (np_cumsum p)"
    by (simp add: matmul_def np_cumsum_length)
next
  fix k
  assume "k < length (matmul (map (map real_of_int)
         (map (\<lambda>i. map (\<lambda>j. if j \<le> i then 1 else 0) [0..<length p]) [0..<length p])) p)"
  then have k: "k < length p"
    by (simp add: matmul_def)
  then show "matmul (map (map real_of_int)
         (map (\<lambda>i. map (\<lambda>j. if j \<le> i then 1 else 0) [0..<length p]) [0..<length p])) p ! k
      = np_cumsum p ! k"
    by (simp only: matmul_tril_nth np_cumsum_nth)
qed

section \<open>The claims on the cost model\<close>

text \<open>
  C3. For every real \<open>p\<close>, \<^verbatim>\<open>degradation_function(p)\<close> with the notebook's constants
  is \<open>1e-5 * exp(0.05 * \<bar>p\<bar> / 6.6)\<close>; with other constants (a non-zero upper power
  bound) it is the base rate times the exponential of the decay rate times \<open>\<bar>p\<bar>\<close> over
  the upper power bound. For every profile of 24 entries \<^verbatim>\<open>cost_degradation\<close> is
  \<^verbatim>\<open>BATTERY_COST\<close> times the sum over the 24 slots of the degradation function at that
  slot's power.
\<close>

theorem degradation_cost_form:
  "degradation_function model2 p = 1 / 100000 * exp (0.05 * \<bar>p\<bar> / 6.6)
   \<and> (CHARGE_POWER_HIGHER_BOUND_KWH cfg \<noteq> 0 \<longrightarrow>
        degradation_function cfg p
          = DEGRADATION_A cfg
            * exp (DEGRADATION_B cfg * \<bar>p\<bar> / CHARGE_POWER_HIGHER_BOUND_KWH cfg))
   \<and> (length prof = 24 \<longrightarrow>
        cost_degradation cfg prof
          = BATTERY_COST cfg * (\<Sum>i<24. degradation_function cfg (prof ! i)))"
proof (intro conjI impI)
  show "degradation_function cfg p
     = DEGRADATION_A cfg * exp (DEGRADATION_B cfg * \<bar>p\<bar> / CHARGE_POWER_HIGHER_BOUND_KWH cfg)"
    by (simp add: degradation_function_def)
  show "degradation_function model2 p = 1 / 100000 * exp (0.05 * \<bar>p\<bar> / 6.6)"
    unfolding degradation_function_def DEGRADATION_A_model2 by (simp add: model2_def)
next
  assume "length prof = 24"
  then show "cost_degradation cfg prof
          = BATTERY_COST cfg * (\<Sum>i<24. degradation_function cfg (prof ! i))"
    using cost_degradation_sum [of cfg prof] by simp
qed

theorem degradation_cost_form_witness:
  "length (replicate 24 (0::real)) = 24
   \<and> CHARGE_POWER_HIGHER_BOUND_KWH model2 \<noteq> 0
   \<and> degradation_function model2 0 = 1 / 100000
   \<and> cost_degradation model2 (replicate 24 0)
       = BATTERY_COST model2 * (\<Sum>i<24. degradation_function model2 (replicate 24 0 ! i))
   \<and> cost_degradation model2 (replicate 24 0) = 0.943488"
proof -
  have len: "length (replicate 24 (0::real)) = 24"
    by simp
  have form: "degradation_function model2 0 = 1 / 100000 * exp (0.05 * \<bar>0\<bar> / 6.6)"
    and total: "cost_degradation model2 (replicate 24 0)
       = BATTERY_COST model2 * (\<Sum>i<24. degradation_function model2 (replicate 24 0 ! i))"
    using degradation_cost_form [where p = 0 and cfg = model2 and prof = "replicate 24 0"] len
    by blast+
  have zero: "degradation_function model2 0 = 1 / 100000"
    using form by simp
  have bc: "BATTERY_COST model2 = 3931.2"
    by (simp add: BATTERY_COST_def model2_def)
  have "(\<Sum>i<24. degradation_function model2 (replicate 24 0 ! i))
      = (\<Sum>i<(24::nat). 1 / 100000)"
    by (rule sum.cong) (simp_all add: zero)
  then have slots: "(\<Sum>i<24. degradation_function model2 (replicate 24 0 ! i))
      = 24 * (1 / 100000)"
    by simp
  have "cost_degradation model2 (replicate 24 0)
      = BATTERY_COST model2 * (\<Sum>i<24. degradation_function model2 (replicate 24 0 ! i))"
    by (rule total)
  also have "\<dots> = 3931.2 * (24 * (1 / 100000))"
    by (simp only: slots bc)
  also have "\<dots> = 0.943488"
    by simp
  finally have "cost_degradation model2 (replicate 24 0) = 0.943488" .
  moreover have "CHARGE_POWER_HIGHER_BOUND_KWH model2 \<noteq> 0"
    by (simp add: model2_def)
  ultimately show ?thesis
    using len zero total by (intro conjI)
qed

text \<open>
  C6. For every profile of 24 entries the total cost is the electricity cost plus the
  degradation cost, and the electricity cost is the sum over the 24 slots of the
  slot's power times the slot's price (the price list has 24 entries, as in the
  notebook).
\<close>

theorem cost_decomposition:
  assumes "length p = 24" and "length (ELECTRICITY_COSTS cfg) = 24"
  shows "cost_charge cfg p = cost_electricity cfg p + cost_degradation cfg p
       \<and> cost_electricity cfg p = (\<Sum>i<24. p ! i * ELECTRICITY_COSTS cfg ! i)"
  using cost_electricity_sum [OF assms] by (simp add: cost_charge_def)

theorem cost_decomposition_witness:
  "length p0 = 24 \<and> length (ELECTRICITY_COSTS model2) = 24
   \<and> cost_charge model2 p0 = cost_electricity model2 p0 + cost_degradation model2 p0
   \<and> cost_electricity model2 p0 = (\<Sum>i<24. p0 ! i * ELECTRICITY_COSTS model2 ! i)"
proof -
  have len: "length p0 = 24"
    by (simp add: p0_def)
  show ?thesis
    using cost_decomposition [OF len length_costs_model2] len length_costs_model2 by simp
qed

text \<open>
  C10. With the 24 prices of the notebook, a profile of more than 24 entries has the
  electricity cost of its first 24 entries (\<^verbatim>\<open>zip\<close> drops the rest), while its
  degradation cost sums the degradation term over all of its entries. Neither function
  has a length check: both are defined, without an error branch, on every list.
\<close>

theorem overlong_profile_costs:
  assumes "24 < length p" and "length (ELECTRICITY_COSTS cfg) = 24"
  shows "cost_electricity cfg p = cost_electricity cfg (take 24 p)
       \<and> cost_degradation cfg p
           = BATTERY_COST cfg * (\<Sum>i<length p. degradation_function cfg (p ! i))"
  using cost_electricity_take [of cfg p] assms(2) cost_degradation_sum [of cfg p] by simp

theorem overlong_profile_costs_witness:
  "24 < length (replicate 24 0 @ [5 :: real]) \<and> length (ELECTRICITY_COSTS model2) = 24
   \<and> cost_electricity model2 (replicate 24 0 @ [5]) = 0
   \<and> cost_degradation model2 (replicate 24 0 @ [5])
       = BATTERY_COST model2
         * (\<Sum>i<25. degradation_function model2 ((replicate 24 0 @ [5]) ! i))"
proof -
  have len: "24 < length (replicate 24 0 @ [5 :: real])"
    by simp
  have "cost_electricity model2 (take 24 (replicate 24 0 @ [5])) = 0"
    by (simp add: cost_electricity_def py_sum_sum_list sum_list_zip_zeros)
  then show ?thesis
    using overlong_profile_costs [OF len length_costs_model2] len length_costs_model2
    by simp
qed

section \<open>The claims on the constraint model\<close>

text \<open>
  C2. \<^verbatim>\<open>m = np.tril([1]*24).reshape((24,24))\<close> is the 24 by 24 lower-triangular matrix
  of ones: row \<open>k\<close> has ones in columns \<open>0..k\<close> and zeros elsewhere. Hence for every
  profile of 24 reals and every row \<open>k\<close> in \<open>0..23\<close>, entry \<open>k\<close> of \<^verbatim>\<open>m @ profile\<close> is
  \<open>profile[0] + ... + profile[k]\<close>, and \<^verbatim>\<open>m @ profile\<close> is the cumulative-sum vector.
\<close>

theorem m_is_cumulative_sum_matrix:
  assumes "length p = 24" and "k < 24"
  shows "\<exists>M. m = Inr M \<and> length M = 24 \<and> length (M ! k) = 24
           \<and> (\<forall>j<24. M ! k ! j = (if j \<le> k then 1 else 0))
           \<and> matmul (map (map real_of_int) M) p ! k = (\<Sum>i\<le>k. p ! i)
           \<and> matmul (map (map real_of_int) M) p = np_cumsum p"
proof -
  let ?M = "map (\<lambda>i. map (\<lambda>j. if j \<le> i then 1 else 0) [0..<24]) [0..<24] :: int list list"
  have k: "k < length p"
    using assms by simp
  have "sum_list (take (Suc k) p) = (\<Sum>i\<le>k. p ! i)"
    using k by (simp add: sum_list_take lessThan_Suc_atMost)
  then have "matmul (map (map real_of_int) ?M) p ! k = (\<Sum>i\<le>k. p ! i)"
    using matmul_tril_nth [OF k] by (simp only: assms(1))
  moreover have "matmul (map (map real_of_int) ?M) p = np_cumsum p"
    using matmul_tril_cumsum [of p] by (simp only: assms(1))
  moreover have "length ?M = 24"
    by (simp only: length_map length_upt diff_zero)
  moreover have "length (?M ! k) = 24"
    using assms(2) by (simp only: nth_map length_map length_upt diff_zero)
  moreover have "\<forall>j<24. ?M ! k ! j = (if j \<le> k then 1 else 0)"
    using assms(2) by (simp del: upt_rec_numeral)
  ultimately show ?thesis
    using m_rows by blast
qed

theorem m_is_cumulative_sum_matrix_witness:
  "length (map real [1..<25]) = 24 \<and> (3::nat) < 24
   \<and> (\<exists>M. m = Inr M \<and> M ! 3 ! 3 = 1 \<and> M ! 3 ! 4 = 0
          \<and> matmul (map (map real_of_int) M) (map real [1..<25]) ! 3 = 10)"
proof -
  have len: "length (map real [1..<25]) = 24"
    by simp
  have k: "(3::nat) < 24"
    by simp
  obtain M where M: "m = Inr M" "\<forall>j<24. M ! 3 ! j = (if j \<le> 3 then 1 else 0)"
    "matmul (map (map real_of_int) M) (map real [1..<25]) ! 3
       = (\<Sum>i\<le>3. map real [1..<25] ! i)"
    using m_is_cumulative_sum_matrix [OF len k] by blast
  have "(\<Sum>i\<le>3. map real [1..<25] ! i) = 10"
    by (simp add: atMost_Suc numeral_3_eq_3 del: upt_rec_numeral)
  moreover have "M ! 3 ! 3 = 1" "M ! 3 ! 4 = 0"
    using M(2) by simp_all
  ultimately show ?thesis
    using len k M(1) M(3) by auto
qed

lemma window_list_nth:
  fixes v :: real
  assumes "i < 24"
  shows "(replicate t_min 0 @ replicate (t_max - t_min) v @ replicate (24 - t_max) 0) ! i
       = (if i < t_min \<or> t_max \<le> i then 0 else v)"
  using assms by (auto simp add: nth_append)

lemma window_list_length:
  "t_min \<le> t_max \<Longrightarrow> t_max \<le> 24
   \<Longrightarrow> length (replicate t_min (0::real) @ replicate (t_max - t_min) v @ replicate (24 - t_max) 0) = 24"
  by simp

lemma variables_nth:
  "i < 24 \<Longrightarrow> variables cfg ! i
     = (if i < T_MIN cfg \<or> T_MAX cfg \<le> i then (0, 0)
        else (CHARGE_POWER_LOWER_BOUND_KWH cfg, CHARGE_POWER_HIGHER_BOUND_KWH cfg))"
  unfolding variables_def by (simp del: upt_rec_numeral)

lemma length_variables: "length (variables cfg) = 24"
  unfolding variables_def by (simp only: length_map length_upt diff_zero)

lemma within_bounds_per_slot:
  assumes "T_MIN cfg \<le> T_MAX cfg" and "T_MAX cfg \<le> 24"
  shows "within_bounds (bounds cfg) x
       = (length x = 24 \<and> (\<forall>j<24. lb_bounds cfg ! j \<le> x ! j \<and> x ! j \<le> ub_bounds cfg ! j))"
proof -
  have "length (lb_bounds cfg) = 24" "length (ub_bounds cfg) = 24"
    using assms by (simp_all add: lb_bounds_def ub_bounds_def)
  then show ?thesis
    by (auto simp add: within_bounds_def bounds_def list_all2_conv_all_nth)
qed

lemma length_lb_linear: "length (lb_linear cfg) = 24"
  by (simp add: lb_linear_def assign_from_def np_times_def np_ones_def Let_def)

lemma lb_linear_nth:
  "k < 24 \<Longrightarrow> lb_linear cfg ! k
     = (if k < T_MAX cfg then - STATE_OF_CHARGE_T0 cfg * Q_KWH cfg
        else (STATE_OF_CHARGE_TCH cfg - STATE_OF_CHARGE_T0 cfg) * Q_KWH cfg)"
  by (simp add: lb_linear_def assign_from_def np_times_def np_ones_def Let_def nth_append)

lemma ub_linear_replicate:
  "ub_linear cfg = replicate 24 ((1 - STATE_OF_CHARGE_T0 cfg) * Q_KWH cfg)"
  by (simp add: ub_linear_def np_times_def np_ones_def)

lemma linear_constraint_Inr:
  "linear_constraint cfg
     = Inr \<lparr> lc_A = map (map real_of_int)
                     (map (\<lambda>i. map (\<lambda>j. if j \<le> i then 1 else 0) [0..<24]) [0..<24]),
               lc_lb = lb_linear cfg, lc_ub = ub_linear cfg \<rparr>"
  unfolding linear_constraint_def m_rows by (simp only: sum.case)

text \<open>
  C4. For each slot \<open>i\<close> in \<open>0..23\<close> the box bounds are both zero when \<open>i < t_min\<close> or
  \<open>i \<ge> t_max\<close>, and otherwise the configured minimum and maximum power: in the lists
  \<^verbatim>\<open>lb\<close> and \<^verbatim>\<open>ub\<close> of Model 2 (\<open>-6.6\<close> and \<open>6.6\<close>) and in the variables of Model 1
  (\<open>0\<close> and \<open>6.6\<close>). The bounds do not couple slots: with a window
  \<open>t_min \<le> t_max \<le> 24\<close>, a vector is within the bounds exactly when it has 24 entries
  and each entry lies between the two bounds of its own slot.
\<close>

theorem box_bounds_per_slot:
  assumes "i < 24"
  shows "lb_bounds cfg ! i
           = (if i < T_MIN cfg \<or> T_MAX cfg \<le> i then 0 else CHARGE_POWER_LOWER_BOUND_KWH cfg)
       \<and> ub_bounds cfg ! i
           = (if i < T_MIN cfg \<or> T_MAX cfg \<le> i then 0 else CHARGE_POWER_HIGHER_BOUND_KWH cfg)
       \<and> variables cfg ! i
           = (if i < T_MIN cfg \<or> T_MAX cfg \<le> i then (0, 0)
              else (CHARGE_POWER_LOWER_BOUND_KWH cfg, CHARGE_POWER_HIGHER_BOUND_KWH cfg))
       \<and> CHARGE_POWER_LOWER_BOUND_KWH model2 = - 6.6
       \<and> CHARGE_POWER_HIGHER_BOUND_KWH model2 = 6.6
       \<and> CHARGE_POWER_LOWER_BOUND_KWH model1 = 0
       \<and> CHARGE_POWER_HIGHER_BOUND_KWH model1 = 6.6
       \<and> (T_MIN cfg \<le> T_MAX cfg \<and> T_MAX cfg \<le> 24 \<longrightarrow>
            within_bounds (bounds cfg) x
              = (length x = 24
                 \<and> (\<forall>j<24. lb_bounds cfg ! j \<le> x ! j \<and> x ! j \<le> ub_bounds cfg ! j)))"
  using assms window_list_nth [OF assms] variables_nth [OF assms] within_bounds_per_slot [of cfg x]
  by (simp add: lb_bounds_def ub_bounds_def model1_def model2_def)

theorem box_bounds_per_slot_witness:
  "(0::nat) < 24 \<and> (5::nat) < 24 \<and> (22::nat) < 24
   \<and> lb_bounds model2 ! 0 = 0 \<and> ub_bounds model2 ! 0 = 0
   \<and> lb_bounds model2 ! 5 = - 6.6 \<and> ub_bounds model2 ! 5 = 6.6
   \<and> lb_bounds model2 ! 22 = 0 \<and> ub_bounds model2 ! 22 = 0
   \<and> variables model1 ! 0 = (0, 0) \<and> variables model1 ! 5 = (0, 6.6)
   \<and> variables model1 ! 22 = (0, 0)
   \<and> T_MIN model2 \<le> T_MAX model2 \<and> T_MAX model2 \<le> 24
   \<and> within_bounds (bounds model2) (replicate 24 0)"
proof -
  have i: "(0::nat) < 24" "(5::nat) < 24" "(22::nat) < 24"
    by simp_all
  have window: "T_MIN model2 \<le> T_MAX model2 \<and> T_MAX model2 \<le> 24"
    by (simp add: model2_def)
  note slot0 = box_bounds_per_slot [OF i(1), of model2 "replicate 24 0"]
  note slot5 = box_bounds_per_slot [OF i(2), of model2 "replicate 24 0"]
  note slot22 = box_bounds_per_slot [OF i(3), of model2 "replicate 24 0"]
  note lp0 = box_bounds_per_slot [OF i(1), of model1 "replicate 24 0"]
  note lp5 = box_bounds_per_slot [OF i(2), of model1 "replicate 24 0"]
  note lp22 = box_bounds_per_slot [OF i(3), of model1 "replicate 24 0"]
  have t: "T_MIN model2 = 1" "T_MAX model2 = 22" "T_MIN model1 = 1" "T_MAX model1 = 22"
    by (simp_all add: model1_def model2_def)
  have "lb_bounds model2 ! 0 = 0" "ub_bounds model2 ! 0 = 0"
    using slot0 t by simp_all
  moreover have "lb_bounds model2 ! 5 = - 6.6" "ub_bounds model2 ! 5 = 6.6"
    using slot5 t by simp_all
  moreover have "lb_bounds model2 ! 22 = 0" "ub_bounds model2 ! 22 = 0"
    using slot22 t by simp_all
  moreover have "variables model1 ! 0 = (0, 0)" "variables model1 ! 5 = (0, 6.6)"
    "variables model1 ! 22 = (0, 0)"
    using lp0 lp5 lp22 t by simp_all
  moreover have "within_bounds (bounds model2) (replicate 24 0)"
  proof -
    have "\<forall>j<24. lb_bounds model2 ! j \<le> replicate 24 0 ! j
                \<and> replicate 24 0 ! j \<le> ub_bounds model2 ! j"
    proof (intro allI impI)
      fix j :: nat
      assume j: "j < 24"
      show "lb_bounds model2 ! j \<le> replicate 24 0 ! j
                \<and> replicate 24 0 ! j \<le> ub_bounds model2 ! j"
        using box_bounds_per_slot [OF j, of model2 "replicate 24 0"] j
        by (simp add: model2_def)
    qed
    then show ?thesis
      using slot0 window by simp
  qed
  ultimately show ?thesis
    using i window by simp
qed

text \<open>
  C1, as the notebook has it. \<^verbatim>\<open>lb[T_MAX:] = ...\<close> assigns a slice: with \<open>t_max < 24\<close>,
  every row of index \<open>k < t_max\<close> has the bounds
  \<open>[-initial_SOC*capacity, (1-initial_SOC)*capacity]\<close>, and every row of index
  \<open>k \<ge> t_max\<close>, not one row only, has the lower bound
  \<open>(target_SOC - initial_SOC)*capacity\<close> with the same upper bound.
\<close>

theorem linear_constraint_rows:
  assumes "T_MAX cfg < 24" and "k < 24"
  shows "\<exists>lc. linear_constraint cfg = Inr lc
           \<and> length (lc_lb lc) = 24 \<and> length (lc_ub lc) = 24
           \<and> lc_lb lc ! k
               = (if k < T_MAX cfg then - STATE_OF_CHARGE_T0 cfg * Q_KWH cfg
                  else (STATE_OF_CHARGE_TCH cfg - STATE_OF_CHARGE_T0 cfg) * Q_KWH cfg)
           \<and> lc_ub lc ! k = (1 - STATE_OF_CHARGE_T0 cfg) * Q_KWH cfg"
  using assms(2) linear_constraint_Inr [of cfg] length_lb_linear [of cfg]
    lb_linear_nth [of k cfg] ub_linear_replicate [of cfg]
  by simp

theorem linear_constraint_rows_witness:
  "T_MAX model2 < 24 \<and> (21::nat) < 24 \<and> (22::nat) < 24 \<and> (23::nat) < 24
   \<and> (\<exists>lc. linear_constraint model2 = Inr lc
          \<and> lc_lb lc ! 21 = - 9 \<and> lc_ub lc ! 21 = 21)
   \<and> (\<exists>lc. linear_constraint model2 = Inr lc
          \<and> lc_lb lc ! 22 = 18 \<and> lc_ub lc ! 22 = 21)"
proof -
  have t: "T_MAX model2 < 24"
    by (simp add: model2_def)
  have k: "(21::nat) < 24" "(22::nat) < 24" "(23::nat) < 24"
    by simp_all
  have c: "T_MAX model2 = 22" "STATE_OF_CHARGE_T0 model2 = 0.3"
    "STATE_OF_CHARGE_TCH model2 = 0.9" "Q_KWH model2 = 30"
    by (simp_all add: model2_def)
  have "\<exists>lc. linear_constraint model2 = Inr lc
          \<and> lc_lb lc ! 21 = - 9 \<and> lc_ub lc ! 21 = 21"
    using linear_constraint_rows [OF t k(1)] by (auto simp add: c)
  moreover have "\<exists>lc. linear_constraint model2 = Inr lc
          \<and> lc_lb lc ! 22 = 18 \<and> lc_ub lc ! 22 = 21"
    using linear_constraint_rows [OF t k(2)] by (auto simp add: c)
  ultimately show ?thesis
    using t k by simp
qed

text \<open>
  C1 as stated fails on the notebook's constants: the lower bounds are \<open>-9\<close> on rows
  \<open>0..21\<close> and \<open>18\<close> on both rows 22 and 23. Two rows are tightened, and row 23, which
  lies after \<open>t_max = 22\<close>, does not keep the lower bound \<open>-initial_SOC*capacity\<close>.
\<close>

theorem terminal_rows_counterexample:
  "map_sum id lc_lb (linear_constraint model2) = Inr (replicate 22 (- 9) @ replicate 2 18)
   \<and> lb_linear model2 ! 21 = - STATE_OF_CHARGE_T0 model2 * Q_KWH model2
   \<and> lb_linear model2 ! 22 = 18 \<and> lb_linear model2 ! 23 = 18
   \<and> lb_linear model2 ! 23 \<noteq> - STATE_OF_CHARGE_T0 model2 * Q_KWH model2"
proof -
  have c: "T_MAX model2 = 22" "STATE_OF_CHARGE_T0 model2 = 0.3"
    "STATE_OF_CHARGE_TCH model2 = 0.9" "Q_KWH model2 = 30"
    by (simp_all add: model2_def)
  have "lb_linear model2 = replicate 22 (- 9) @ replicate 2 18"
    by (simp add: lb_linear_def assign_from_def np_times_def np_ones_def Let_def c)
  then have whole:
    "map_sum id lc_lb (linear_constraint model2) = Inr (replicate 22 (- 9) @ replicate 2 18)"
    by (simp add: linear_constraint_Inr)
  have r21: "lb_linear model2 ! 21 = - STATE_OF_CHARGE_T0 model2 * Q_KWH model2"
    using lb_linear_nth [of 21 model2] by (simp add: c)
  have r22: "lb_linear model2 ! 22 = 18"
    using lb_linear_nth [of 22 model2] by (simp add: c)
  have r23: "lb_linear model2 ! 23 = 18"
    using lb_linear_nth [of 23 model2] by (simp add: c)
  have ne: "lb_linear model2 ! 23 \<noteq> - STATE_OF_CHARGE_T0 model2 * Q_KWH model2"
    unfolding r23 by (simp add: c)
  from whole r21 r22 r23 ne show ?thesis
    by (intro conjI)
qed

section \<open>The claims on the solver driver\<close>

lemma rint_of_int: "rint (of_int n) = n"
  by (simp add: rint_def)

lemma py_round_one: "py_round 1 2 = 1"
proof -
  have "rint (1 * 10 ^ 2) = rint (of_int 100)"
    by simp
  then show ?thesis
    unfolding py_round_def by (simp only: rint_of_int) simp
qed

lemma res_runs_minimizer:
  "res cfg minimize
     = minimize (cost_charge cfg) p0
         [\<lparr> lc_A = map (map real_of_int)
                     (map (\<lambda>i. map (\<lambda>j. if j \<le> i then 1 else 0) [0..<24]) [0..<24]),
             lc_lb = lb_linear cfg, lc_ub = ub_linear cfg \<rparr>]
         (bounds cfg)"
  unfolding res_def linear_constraint_Inr by (simp only: sum.case)

lemma p0_not_feasible: "\<not> model2_feasible model2 p0"
proof
  assume "model2_feasible model2 p0"
  then have "within_bounds (bounds model2) p0"
    by (simp add: model2_feasible_def linear_constraint_Inr)
  then have "list_all2 (\<le>) p0 (ub_bounds model2)"
    by (simp add: within_bounds_def bounds_def)
  then have "p0 ! 0 \<le> ub_bounds model2 ! 0"
    by (rule list_all2_nthD) (simp add: p0_def)
  moreover have "ub_bounds model2 ! 0 = 0"
    by (simp add: ub_bounds_def model2_def)
  moreover have "p0 ! 0 = 1"
    by (simp add: p0_def)
  ultimately show False
    by simp
qed

text \<open>
  C7, as the notebook has it. Cell 6 makes no convergence check: whenever the solver
  returns a result, the notebook prints the rounded \<^verbatim>\<open>res.x\<close> under the heading
  \<^verbatim>\<open>Optimal charge profile (kWh):\<close>, and the report is the same for every status the
  result carries.
\<close>

theorem report_ignores_status:
  assumes "res cfg minimize = Inr r"
  shows "notebook2 cfg minimize = Inr (print_report cfg r)
       \<and> heading (print_report cfg r) = ''Optimal charge profile (kWh):''
       \<and> profile (print_report cfg r) = map (\<lambda>rx. py_round rx 2) (res_x r)
       \<and> print_report cfg (r \<lparr> res_status := s \<rparr>) = print_report cfg r"
  using assms by (simp add: notebook2_def print_report_def solution_def)

theorem report_ignores_status_witness:
  "res model2 gives_up = Inr \<lparr> res_x = p0, res_status = 0 \<rparr>
   \<and> notebook2 model2 gives_up = Inr (print_report model2 \<lparr> res_x = p0, res_status = 0 \<rparr>)
   \<and> print_report model2 \<lparr> res_x = p0, res_status = 1 \<rparr>
       = print_report model2 \<lparr> res_x = p0, res_status = 0 \<rparr>"
proof -
  have run: "res model2 gives_up = Inr \<lparr> res_x = p0, res_status = 0 \<rparr>"
    by (simp only: res_runs_minimizer gives_up_def)
  show ?thesis
    using report_ignores_status [OF run, of 1] run by simp
qed

text \<open>
  C7 as stated fails when the solver returns with status 0 (budget exhausted): the
  initial guess, which violates the box bounds, is printed as the optimal profile.
\<close>

theorem exhausted_budget_counterexample:
  "res model2 gives_up = Inr \<lparr> res_x = p0, res_status = 0 \<rparr>
   \<and> \<not> model2_feasible model2 p0
   \<and> map_sum id heading (notebook2 model2 gives_up) = Inr ''Optimal charge profile (kWh):''
   \<and> map_sum id profile (notebook2 model2 gives_up) = Inr (replicate 24 1)"
proof -
  have run: "res model2 gives_up = Inr \<lparr> res_x = p0, res_status = 0 \<rparr>"
    by (simp only: res_runs_minimizer gives_up_def)
  have "solution \<lparr> res_x = p0, res_status = 0 \<rparr> = replicate 24 1"
    by (simp add: solution_def p0_def py_round_one)
  then have "map_sum id profile (notebook2 model2 gives_up) = Inr (replicate 24 1)"
    by (simp add: notebook2_def run print_report_def)
  moreover have "map_sum id heading (notebook2 model2 gives_up)
      = Inr ''Optimal charge profile (kWh):''"
    by (simp add: notebook2_def run print_report_def)
  ultimately show ?thesis
    using run p0_not_feasible by (intro conjI)
qed

text \<open>
  C8, as the notebook has it. There is no validation step: for every configuration,
  malformed ones included, the linear constraint is built from the constants as they
  are, without clamping, and \<^verbatim>\<open>minimize\<close> is called on it. Whatever the notebook returns
  or raises is what the solver returned or raised.
\<close>

theorem no_validation:
  "\<exists>lc. linear_constraint cfg = Inr lc
        \<and> lc_lb lc = assign_from (replicate 24 (- STATE_OF_CHARGE_T0 cfg * Q_KWH cfg)) (T_MAX cfg)
                       ((STATE_OF_CHARGE_TCH cfg - STATE_OF_CHARGE_T0 cfg) * Q_KWH cfg)
        \<and> lc_ub lc = replicate 24 ((1 - STATE_OF_CHARGE_T0 cfg) * Q_KWH cfg)
        \<and> res cfg minimize = minimize (cost_charge cfg) p0 [lc] (bounds cfg)"
proof -
  have "lb_linear cfg
      = assign_from (replicate 24 (- STATE_OF_CHARGE_T0 cfg * Q_KWH cfg)) (T_MAX cfg)
          ((STATE_OF_CHARGE_TCH cfg - STATE_OF_CHARGE_T0 cfg) * Q_KWH cfg)"
    by (simp add: lb_linear_def np_times_def np_ones_def)
  then show ?thesis
    using linear_constraint_Inr [of cfg] res_runs_minimizer [of cfg minimize]
      ub_linear_replicate [of cfg]
    by simp
qed

text \<open>
  C8 as stated fails for a negative capacity: the notebook calls the solver and hands
  it lower bounds \<open>9\<close> and \<open>-18\<close> above the upper bound \<open>-21\<close>.
\<close>

theorem negative_capacity_counterexample:
  "Q_KWH (model2 \<lparr> Q_KWH := - 30 \<rparr>) \<le> 0
   \<and> res (model2 \<lparr> Q_KWH := - 30 \<rparr>) gives_up = Inr \<lparr> res_x = p0, res_status = 0 \<rparr>
   \<and> map_sum id lc_lb (linear_constraint (model2 \<lparr> Q_KWH := - 30 \<rparr>))
       = Inr (replicate 22 9 @ replicate 2 (- 18))
   \<and> map_sum id lc_ub (linear_constraint (model2 \<lparr> Q_KWH := - 30 \<rparr>))
       = Inr (replicate 24 (- 21))"
proof -
  let ?bad = "model2 \<lparr> Q_KWH := - 30 \<rparr>"
  have c: "T_MAX ?bad = 22" "STATE_OF_CHARGE_T0 ?bad = 0.3"
    "STATE_OF_CHARGE_TCH ?bad = 0.9" "Q_KWH ?bad = - 30"
    by (simp_all add: model2_def)
  have "lb_linear ?bad = replicate 22 9 @ replicate 2 (- 18)"
    by (simp add: lb_linear_def assign_from_def np_times_def np_ones_def Let_def c)
  then have lb: "map_sum id lc_lb (linear_constraint ?bad)
       = Inr (replicate 22 9 @ replicate 2 (- 18))"
    by (simp add: linear_constraint_Inr)
  have "ub_linear ?bad = replicate 24 (- 21)"
    by (simp add: ub_linear_replicate c)
  then have ub: "map_sum id lc_ub (linear_constraint ?bad) = Inr (replicate 24 (- 21))"
    by (simp add: linear_constraint_Inr)
  have run: "res ?bad gives_up = Inr \<lparr> res_x = p0, res_status = 0 \<rparr>"
    by (simp only: res_runs_minimizer gives_up_def)
  have "Q_KWH ?bad \<le> 0"
    by (simp add: c)
  with run lb ub show ?thesis
    by (intro conjI)
qed

section \<open>Model 2 without degradation against Model 1\<close>

lemma map_nth_take_upt: "map ((!) x) (take k [0..<length x]) = take k x"
  by (simp add: take_map [symmetric] map_nth)

lemma ct_sum_set_coefficients:
  assumes "length x = 24"
  shows "ct_sum \<lparr> ct_lb = l, ct_ub = u, ct_coefficients = set_coefficients k \<rparr> x
       = sum_list (take k x)"
proof -
  have "map (\<lambda>(v, c). c * x ! v) (map (\<lambda>v. (v, 1)) (take k [0..<24]))
      = map ((!) x) (take k [0..<length x])"
    by (simp only: assms map_map comp_def) simp
  then show ?thesis
    by (simp only: ct_sum_def set_coefficients_def map_nth_take_upt Constraint.simps)
qed

lemma model1_feasible_iff:
  "model1_feasible cfg x
     = (length x = 24
        \<and> (\<forall>i<24. fst (variables cfg ! i) \<le> x ! i \<and> x ! i \<le> snd (variables cfg ! i))
        \<and> Q_KWH cfg * (STATE_OF_CHARGE_TCH cfg - STATE_OF_CHARGE_T0 cfg)
            \<le> sum_list (take (T_MAX cfg) x)
        \<and> sum_list (take (T_MAX cfg) x) \<le> Q_KWH cfg * (1 - STATE_OF_CHARGE_T0 cfg)
        \<and> (\<forall>i \<in> {1..<25}. - Q_KWH cfg * STATE_OF_CHARGE_T0 cfg \<le> sum_list (take i x)
              \<and> sum_list (take i x) \<le> Q_KWH cfg * (1 - STATE_OF_CHARGE_T0 cfg)))"
proof (cases "length x = 24")
  case False
  then show ?thesis
    by (auto simp add: model1_feasible_def length_variables dest: list_all2_lengthD)
next
  case True
  have vars: "list_all2 within_var (variables cfg) x
      = (\<forall>i<24. fst (variables cfg ! i) \<le> x ! i \<and> x ! i \<le> snd (variables cfg ! i))"
    using True by (simp add: list_all2_conv_all_nth length_variables within_var_def)
  have cts: "list_all (\<lambda>ct. within_ct ct x) (constraints cfg)
      = (Q_KWH cfg * (STATE_OF_CHARGE_TCH cfg - STATE_OF_CHARGE_T0 cfg)
            \<le> sum_list (take (T_MAX cfg) x)
        \<and> sum_list (take (T_MAX cfg) x) \<le> Q_KWH cfg * (1 - STATE_OF_CHARGE_T0 cfg)
        \<and> (\<forall>i \<in> {1..<25}. - Q_KWH cfg * STATE_OF_CHARGE_T0 cfg \<le> sum_list (take i x)
              \<and> sum_list (take i x) \<le> Q_KWH cfg * (1 - STATE_OF_CHARGE_T0 cfg)))"
    unfolding constraints_def list_all_iff within_ct_def
      ct_charge_vehicle_before_tmax_def ct_bounded_charge_def
      ct_sum_set_coefficients [OF True]
    by (simp add: ct_sum_set_coefficients [OF True] del: upt_rec_numeral)
  show ?thesis
    using True by (simp only: model1_feasible_def vars cts) simp
qed

lemma model2_feasible_iff:
  "model2_feasible cfg x
     = (length x = 24 \<and> within_bounds (bounds cfg) x
        \<and> (\<forall>k<24. lb_linear cfg ! k \<le> sum_list (take (Suc k) x)
              \<and> sum_list (take (Suc k) x) \<le> (1 - STATE_OF_CHARGE_T0 cfg) * Q_KWH cfg))"
proof (cases "length x = 24")
  case False
  then show ?thesis
    by (simp add: model2_feasible_def linear_constraint_Inr)
next
  case True
  have cum: "matmul (map (map real_of_int)
         (map (\<lambda>i. map (\<lambda>j. if j \<le> i then 1 else 0) [0..<24]) [0..<24])) x = np_cumsum x"
    using matmul_tril_cumsum [of x] by (simp only: True)
  have "within_linear \<lparr> lc_A = map (map real_of_int)
                     (map (\<lambda>i. map (\<lambda>j. if j \<le> i then 1 else 0) [0..<24]) [0..<24]),
               lc_lb = lb_linear cfg, lc_ub = ub_linear cfg \<rparr> x
      = (\<forall>k<24. lb_linear cfg ! k \<le> sum_list (take (Suc k) x)
              \<and> sum_list (take (Suc k) x) \<le> (1 - STATE_OF_CHARGE_T0 cfg) * Q_KWH cfg)"
    unfolding within_linear_def LinearConstraint.simps cum
    using True
    by (auto simp add: list_all2_conv_all_nth length_lb_linear np_cumsum_length
        np_cumsum_nth ub_linear_replicate simp del: take_Suc)
  then show ?thesis
    using True by (simp only: model2_feasible_def linear_constraint_Inr sum.case)
qed

lemma prefix_frozen:
  fixes x :: "real list"
  assumes len: "length x = 24" and zero: "\<forall>i<24. t \<le> i \<longrightarrow> x ! i = 0"
    and "t \<le> k" and "k \<le> 24"
  shows "sum_list (take k x) = sum_list (take t x)"
proof -
  have "(\<Sum>i<k. x ! i) = (\<Sum>i<t. x ! i)"
  proof (rule sum.mono_neutral_right)
    show "finite {..<k}"
      by simp
    show "{..<t} \<subseteq> {..<k}"
      using assms(3) by auto
    show "\<forall>i \<in> {..<k} - {..<t}. x ! i = 0"
      using zero assms(4) by auto
  qed
  then show ?thesis
    using assms(3,4) len by (simp add: sum_list_take)
qed

lemma outside_window_zero:
  assumes "within_bounds (bounds cfg) x" and "T_MIN cfg \<le> T_MAX cfg" and "T_MAX cfg \<le> 24"
  shows "\<forall>i<24. T_MAX cfg \<le> i \<longrightarrow> x ! i = 0"
proof (intro allI impI)
  fix i
  assume i: "i < 24" and after: "T_MAX cfg \<le> i"
  have "lb_bounds cfg ! i \<le> x ! i" and "x ! i \<le> ub_bounds cfg ! i"
    using assms i by (simp_all add: within_bounds_per_slot)
  moreover have "lb_bounds cfg ! i = 0" and "ub_bounds cfg ! i = 0"
    using window_list_nth [OF i] after by (simp_all add: lb_bounds_def ub_bounds_def)
  ultimately show "x ! i = 0"
    by simp
qed

lemma within_bounds_variables:
  assumes "T_MIN cfg \<le> T_MAX cfg" and "T_MAX cfg \<le> 24"
  shows "within_bounds (bounds cfg) x
       = (length x = 24
          \<and> (\<forall>i<24. fst (variables cfg ! i) \<le> x ! i \<and> x ! i \<le> snd (variables cfg ! i)))"
proof -
  have "\<forall>i<24. fst (variables cfg ! i) = lb_bounds cfg ! i
              \<and> snd (variables cfg ! i) = ub_bounds cfg ! i"
    using window_list_nth by (simp add: variables_nth lb_bounds_def ub_bounds_def)
  then show ?thesis
    using assms by (auto simp add: within_bounds_per_slot)
qed

lemma same_feasible_set:
  assumes window: "T_MIN cfg \<le> T_MAX cfg" "0 < T_MAX cfg" and tail: "T_MAX cfg < 24"
  shows "model2_feasible cfg x = model1_feasible cfg x"
proof (cases "length x = 24 \<and> within_bounds (bounds cfg) x")
  case False
  then show ?thesis
    using window tail
    by (auto simp add: model2_feasible_iff model1_feasible_iff within_bounds_variables)
next
  case True
  define S where "S n = sum_list (take n x)" for n
  define Lo where "Lo = - STATE_OF_CHARGE_T0 cfg * Q_KWH cfg"
  define Tg where "Tg = (STATE_OF_CHARGE_TCH cfg - STATE_OF_CHARGE_T0 cfg) * Q_KWH cfg"
  define U where "U = (1 - STATE_OF_CHARGE_T0 cfg) * Q_KWH cfg"
  define t where "t = T_MAX cfg"
  have t: "0 < t" "t < 24"
    using window tail by (simp_all add: t_def)
  have len: "length x = 24"
    using True by simp
  have zero: "\<forall>i<24. t \<le> i \<longrightarrow> x ! i = 0"
    unfolding t_def using True window tail by (intro outside_window_zero) simp_all
  have frozen: "S k = S t" if "t \<le> k" "k \<le> 24" for k
    unfolding S_def using len zero that by (rule prefix_frozen)
  have vars: "\<forall>i<24. fst (variables cfg ! i) \<le> x ! i \<and> x ! i \<le> snd (variables cfg ! i)"
    using True window tail within_bounds_variables [of cfg x] by simp
  have m2: "model2_feasible cfg x
      = (\<forall>k<24. (if k < t then Lo else Tg) \<le> S (Suc k) \<and> S (Suc k) \<le> U)"
    using True by (simp add: model2_feasible_iff lb_linear_nth S_def Lo_def Tg_def U_def t_def
        del: take_Suc)
  have m1: "model1_feasible cfg x
      = (Tg \<le> S t \<and> S t \<le> U \<and> (\<forall>i \<in> {1..<25}. Lo \<le> S i \<and> S i \<le> U))"
    using vars len
    by (simp add: model1_feasible_iff S_def Lo_def Tg_def U_def t_def mult.commute)
  have "(\<forall>k<24. (if k < t then Lo else Tg) \<le> S (Suc k) \<and> S (Suc k) \<le> U)
      = (Tg \<le> S t \<and> S t \<le> U \<and> (\<forall>i \<in> {1..<25}. Lo \<le> S i \<and> S i \<le> U))"
  proof
    assume rows: "\<forall>k<24. (if k < t then Lo else Tg) \<le> S (Suc k) \<and> S (Suc k) \<le> U"
    have "S (Suc t) = S t"
      using t by (intro frozen) simp_all
    then have target: "Tg \<le> S t" "S t \<le> U"
      using rows [rule_format, of t] t by simp_all
    have before: "Lo \<le> S t"
      using rows [rule_format, of "t - 1"] t by simp
    have "Lo \<le> S i \<and> S i \<le> U" if "i \<in> {1..<25}" for i
    proof (cases "i - 1 < t")
      case True
      moreover have "i - 1 < 24" and "Suc (i - 1) = i"
        using that by auto
      ultimately show ?thesis
        using rows [rule_format, of "i - 1"] by simp
    next
      case False
      then have "S i = S t"
        using that by (intro frozen) simp_all
      then show ?thesis
        using before target by simp
    qed
    then show "Tg \<le> S t \<and> S t \<le> U \<and> (\<forall>i \<in> {1..<25}. Lo \<le> S i \<and> S i \<le> U)"
      using target by blast
  next
    assume lp: "Tg \<le> S t \<and> S t \<le> U \<and> (\<forall>i \<in> {1..<25}. Lo \<le> S i \<and> S i \<le> U)"
    show "\<forall>k<24. (if k < t then Lo else Tg) \<le> S (Suc k) \<and> S (Suc k) \<le> U"
    proof (intro allI impI)
      fix k :: nat
      assume k: "k < 24"
      then have prefix: "Lo \<le> S (Suc k)" "S (Suc k) \<le> U"
        using lp by simp_all
      show "(if k < t then Lo else Tg) \<le> S (Suc k) \<and> S (Suc k) \<le> U"
      proof (cases "k < t")
        case True
        then show ?thesis
          using prefix by simp
      next
        case False
        then have "S (Suc k) = S t"
          using k by (intro frozen) simp_all
        then show ?thesis
          using False lp by simp
      qed
    qed
  qed
  then show ?thesis
    by (simp only: m1 m2)
qed

lemma degradation_function_zero_rate:
  "DEGRADATION_A cfg = 0 \<Longrightarrow> degradation_function cfg p = 0"
  by (simp add: degradation_function_def)

lemma cost_charge_zero_rate:
  assumes "DEGRADATION_A cfg = 0"
  shows "cost_charge cfg x = cost_electricity cfg x"
proof -
  have "degradation_function cfg = (\<lambda>p. 0)"
    using assms by (intro ext) (rule degradation_function_zero_rate)
  then have "cost_degradation cfg x = 0"
    by (simp add: cost_degradation_def py_sum_sum_list)
  then show ?thesis
    by (simp add: cost_charge_def)
qed

lemma dot_commute: "dot a b = dot b a"
proof -
  have "map (\<lambda>(u, v). u * v) (zip a b) = map (\<lambda>(u, v). u * v) (zip b a)"
    by (subst zip_commute) (simp add: case_prod_beta mult.commute)
  then show ?thesis
    by (simp only: dot_def)
qed

lemma cost_electricity_dot: "cost_electricity cfg x = dot (ELECTRICITY_COSTS cfg) x"
  by (subst dot_commute) (simp add: cost_electricity_def py_sum_sum_list dot_def)

lemma objective_costs:
  assumes "length (ELECTRICITY_COSTS cfg) = 24"
  shows "objective cfg = Inr (ELECTRICITY_COSTS cfg)"
proof -
  have "map (\<lambda>i. ELECTRICITY_COSTS cfg ! i) [0..<24] = ELECTRICITY_COSTS cfg"
    using map_nth [of "ELECTRICITY_COSTS cfg"] by (simp only: assms)
  then show ?thesis
    using assms by (simp only: objective_def) simp
qed

lemma zero_degradation_same_problem:
  assumes "T_MIN cfg \<le> T_MAX cfg" and "0 < T_MAX cfg" and "T_MAX cfg < 24"
    and "DEGRADATION_A cfg = 0" and "length (ELECTRICITY_COSTS cfg) = 24"
    and "CHARGE_POWER_HIGHER_BOUND_KWH cfg \<noteq> 0"
  shows "model2_feasible cfg x = model1_feasible cfg x"
    and "objective_value cfg x = Inr (cost_charge cfg x)"
    and "is_minimum (model2_feasible cfg) (cost_charge cfg) v
       = is_minimum (model1_feasible cfg) (dot (ELECTRICITY_COSTS cfg)) v"
proof -
  show "model2_feasible cfg x = model1_feasible cfg x"
    using assms(1-3) by (rule same_feasible_set)
  show "objective_value cfg x = Inr (cost_charge cfg x)"
    using assms(4,5)
    by (simp add: objective_value_def objective_costs cost_charge_zero_rate cost_electricity_dot)
  have "model2_feasible cfg = model1_feasible cfg"
    using assms(1-3) by (intro ext same_feasible_set)
  moreover have "cost_charge cfg = dot (ELECTRICITY_COSTS cfg)"
    using assms(4) by (intro ext) (simp add: cost_charge_zero_rate cost_electricity_dot)
  ultimately show "is_minimum (model2_feasible cfg) (cost_charge cfg) v
       = is_minimum (model1_feasible cfg) (dot (ELECTRICITY_COSTS cfg)) v"
    by simp
qed

lemma prefix_sum_nonneg:
  fixes x :: "real list"
  assumes "\<forall>a \<in> set x. 0 \<le> a"
  shows "0 \<le> sum_list (take k x)" and "sum_list (take k x) \<le> sum_list x"
proof -
  have parts: "sum_list x = sum_list (take k x) + sum_list (drop k x)"
    by (metis append_take_drop_id sum_list_append)
  have "\<forall>a \<in> set (take k x). 0 \<le> a" and "\<forall>a \<in> set (drop k x). 0 \<le> a"
    using assms by (auto dest: in_set_takeD in_set_dropD)
  then have "0 \<le> sum_list (take k x)" and "0 \<le> sum_list (drop k x)"
    by (simp_all add: sum_list_nonneg)
  then show "0 \<le> sum_list (take k x)" and "sum_list (take k x) \<le> sum_list x"
    using parts by simp_all
qed

lemma tarif_bleu_at_least_low: "i < 24 \<Longrightarrow> LOW_COST \<le> tarif_bleu ! i"
proof -
  assume "i < 24"
  then have "tarif_bleu ! i \<in> set tarif_bleu"
    by (intro nth_mem) (simp add: length_tarif_bleu)
  then show ?thesis
    by (auto simp add: tarif_bleu_def LOW_COST_def HIGH_COST_def)
qed

lemma dot_tarif_bleu_lower:
  assumes len: "length y = 24" and nonneg: "\<forall>i<24. 0 \<le> y ! i"
  shows "LOW_COST * sum_list y \<le> dot tarif_bleu y"
proof -
  have "LOW_COST * sum_list y = (\<Sum>i<24. LOW_COST * y ! i)"
    using len by (simp add: sum_list_sum_nth atLeast0LessThan sum_distrib_left)
  also have "\<dots> \<le> (\<Sum>i<24. tarif_bleu ! i * y ! i)"
  proof (rule sum_mono)
    fix i :: nat
    assume "i \<in> {..<24}"
    then have "i < 24"
      by simp
    then show "LOW_COST * y ! i \<le> tarif_bleu ! i * y ! i"
      using tarif_bleu_at_least_low nonneg by (intro mult_right_mono) simp_all
  qed
  also have "\<dots> = dot tarif_bleu y"
    using len by (simp add: dot_nth length_tarif_bleu)
  finally show ?thesis .
qed

lemma model1_reads_no_degradation:
  "model1_feasible (cfg \<lparr> DEGRADATION_A := a \<rparr>) x = model1_feasible cfg x"
  "objective (cfg \<lparr> DEGRADATION_A := a \<rparr>) = objective cfg"
proof -
  have "variables (cfg \<lparr> DEGRADATION_A := a \<rparr>) = variables cfg"
    by (simp add: variables_def del: upt_rec_numeral cong: if_cong)
  moreover have "ct_bounded_charge (cfg \<lparr> DEGRADATION_A := a \<rparr>) = ct_bounded_charge cfg"
    by (intro ext) (simp add: ct_bounded_charge_def)
  moreover have "ct_charge_vehicle_before_tmax (cfg \<lparr> DEGRADATION_A := a \<rparr>)
      = ct_charge_vehicle_before_tmax cfg"
    by (simp add: ct_charge_vehicle_before_tmax_def)
  ultimately show "model1_feasible (cfg \<lparr> DEGRADATION_A := a \<rparr>) x = model1_feasible cfg x"
    by (simp only: model1_feasible_def constraints_def)
  show "objective (cfg \<lparr> DEGRADATION_A := a \<rparr>) = objective cfg"
    by (simp add: objective_def del: upt_rec_numeral)
qed

lemma reduction_at_notebook_constants:
  "model2_feasible (no_degradation_no_v2g model2) x = model1_feasible model1 x"
  "objective_value model1 x = Inr (cost_charge (no_degradation_no_v2g model2) x)"
  "is_minimum (model2_feasible (no_degradation_no_v2g model2))
       (cost_charge (no_degradation_no_v2g model2)) v
     = is_minimum (model1_feasible model1) (dot (ELECTRICITY_COSTS model1)) v"
proof -
  let ?cfg = "no_degradation_no_v2g model2"
  have same: "?cfg = model1 \<lparr> DEGRADATION_A := 0 \<rparr>"
    by (simp add: no_degradation_no_v2g_def model1_def)
  have c: "T_MIN ?cfg \<le> T_MAX ?cfg" "0 < T_MAX ?cfg" "T_MAX ?cfg < 24"
    "DEGRADATION_A ?cfg = 0" "length (ELECTRICITY_COSTS ?cfg) = 24"
    "CHARGE_POWER_HIGHER_BOUND_KWH ?cfg \<noteq> 0"
    by (simp_all add: no_degradation_no_v2g_def model2_def length_tarif_bleu)
  have lp: "model1_feasible ?cfg = model1_feasible model1"
    unfolding same by (intro ext model1_reads_no_degradation)
  have costs: "ELECTRICITY_COSTS ?cfg = ELECTRICITY_COSTS model1"
    by (simp add: same)
  show "model2_feasible ?cfg x = model1_feasible model1 x"
    using zero_degradation_same_problem(1) [OF c] by (simp only: lp)
  show "objective_value model1 x = Inr (cost_charge ?cfg x)"
    using zero_degradation_same_problem(2) [OF c, of x]
    by (simp add: objective_value_def same model1_reads_no_degradation)
  show "is_minimum (model2_feasible ?cfg) (cost_charge ?cfg) v
     = is_minimum (model1_feasible model1) (dot (ELECTRICITY_COSTS model1)) v"
    using zero_degradation_same_problem(3) [OF c] by (simp only: lp costs)
qed

lemma reduced_t24_fields:
  "ELECTRICITY_COSTS reduced_t24 = tarif_bleu" "STATE_OF_CHARGE_T0 reduced_t24 = 0.3"
  "STATE_OF_CHARGE_TCH reduced_t24 = 0.9" "Q_KWH reduced_t24 = 30"
  "CHARGE_POWER_LOWER_BOUND_KWH reduced_t24 = 0" "CHARGE_POWER_HIGHER_BOUND_KWH reduced_t24 = 6.6"
  "DEGRADATION_A reduced_t24 = 0" "T_MIN reduced_t24 = 1" "T_MAX reduced_t24 = 24"
  by (simp_all add: reduced_t24_def no_degradation_no_v2g_def model2_def)

lemma reduced_t24_slots:
  assumes "j < 24"
  shows "lb_bounds reduced_t24 ! j = 0" and "ub_bounds reduced_t24 ! j = (if j = 0 then 0 else 6.6)"
  using window_list_nth [OF assms, of 1 24 0] window_list_nth [OF assms, of 1 24 "6.6"] assms
  by (simp_all add: lb_bounds_def ub_bounds_def reduced_t24_fields)

lemma reduced_t24_within_bounds:
  "within_bounds (bounds reduced_t24) x
     = (length x = 24 \<and> x ! 0 = 0 \<and> (\<forall>i<24. 0 \<le> x ! i \<and> x ! i \<le> 6.6))"
proof -
  have "within_bounds (bounds reduced_t24) x
      = (length x = 24
         \<and> (\<forall>j<24. lb_bounds reduced_t24 ! j \<le> x ! j \<and> x ! j \<le> ub_bounds reduced_t24 ! j))"
    by (rule within_bounds_per_slot) (simp_all add: reduced_t24_fields)
  also have "(\<forall>j<24. lb_bounds reduced_t24 ! j \<le> x ! j \<and> x ! j \<le> ub_bounds reduced_t24 ! j)
      = (x ! 0 = 0 \<and> (\<forall>i<24. 0 \<le> x ! i \<and> x ! i \<le> 6.6))"
  proof
    assume box: "\<forall>j<24. lb_bounds reduced_t24 ! j \<le> x ! j \<and> x ! j \<le> ub_bounds reduced_t24 ! j"
    have "0 \<le> x ! 0" and "x ! 0 \<le> 0"
      using box [rule_format, of 0] reduced_t24_slots [of 0] by simp_all
    then have "x ! 0 = 0"
      by simp
    moreover have "0 \<le> x ! i \<and> x ! i \<le> 6.6" if "i < 24" for i
      using box [rule_format, OF that] reduced_t24_slots [OF that] by (cases "i = 0") simp_all
    ultimately show "x ! 0 = 0 \<and> (\<forall>i<24. 0 \<le> x ! i \<and> x ! i \<le> 6.6)"
      by blast
  next
    assume slots: "x ! 0 = 0 \<and> (\<forall>i<24. 0 \<le> x ! i \<and> x ! i \<le> 6.6)"
    show "\<forall>j<24. lb_bounds reduced_t24 ! j \<le> x ! j \<and> x ! j \<le> ub_bounds reduced_t24 ! j"
    proof (intro allI impI)
      fix j :: nat
      assume j: "j < 24"
      have "0 \<le> x ! j" and "x ! j \<le> 6.6"
        using slots j by simp_all
      then show "lb_bounds reduced_t24 ! j \<le> x ! j \<and> x ! j \<le> ub_bounds reduced_t24 ! j"
        using slots reduced_t24_slots [OF j] by (cases "j = 0") simp_all
    qed
  qed
  finally show ?thesis .
qed

lemma model2_at_24_iff:
  "model2_feasible reduced_t24 x
     = (length x = 24 \<and> x ! 0 = 0 \<and> (\<forall>i<24. 0 \<le> x ! i \<and> x ! i \<le> 6.6)
        \<and> (\<forall>k<24. - 9 \<le> sum_list (take (Suc k) x) \<and> sum_list (take (Suc k) x) \<le> 21))"
proof -
  have "lb_linear reduced_t24 ! k = - 9" if "k < 24" for k
    using that by (simp add: lb_linear_nth reduced_t24_fields)
  then have "(\<forall>k<24. lb_linear reduced_t24 ! k \<le> sum_list (take (Suc k) x)
              \<and> sum_list (take (Suc k) x) \<le> (1 - STATE_OF_CHARGE_T0 reduced_t24) * Q_KWH reduced_t24)
      = (\<forall>k<24. - 9 \<le> sum_list (take (Suc k) x) \<and> sum_list (take (Suc k) x) \<le> 21)"
    by (simp add: reduced_t24_fields del: take_Suc)
  then show ?thesis
    unfolding model2_feasible_iff reduced_t24_within_bounds by blast
qed

lemma model1_at_24_iff:
  "model1_feasible reduced_t24 x
     = (length x = 24 \<and> x ! 0 = 0 \<and> (\<forall>i<24. 0 \<le> x ! i \<and> x ! i \<le> 6.6)
        \<and> 18 \<le> sum_list x \<and> sum_list x \<le> 21
        \<and> (\<forall>i \<in> {1..<25}. - 9 \<le> sum_list (take i x) \<and> sum_list (take i x) \<le> 21))"
proof (cases "length x = 24")
  case False
  then show ?thesis
    by (simp add: model1_feasible_iff)
next
  case True
  have box: "(\<forall>i<24. fst (variables reduced_t24 ! i) \<le> x ! i \<and> x ! i \<le> snd (variables reduced_t24 ! i))
      = (x ! 0 = 0 \<and> (\<forall>i<24. 0 \<le> x ! i \<and> x ! i \<le> 6.6))"
    using within_bounds_variables [of reduced_t24 x] reduced_t24_within_bounds [of x] True
    by (simp add: reduced_t24_fields)
  show ?thesis
    unfolding model1_feasible_iff box using True by (simp add: reduced_t24_fields)
qed

lemma model2_minimum_at_24: "is_minimum (model2_feasible reduced_t24) (cost_charge reduced_t24) 0"
  unfolding is_minimum_def
proof (intro exI conjI allI impI)
  show "model2_feasible reduced_t24 (replicate 24 0)"
    by (simp add: model2_at_24_iff sum_list_replicate del: take_Suc)
  show "cost_charge reduced_t24 (replicate 24 0) = 0"
    by (simp add: cost_charge_zero_rate reduced_t24_fields cost_electricity_def py_sum_sum_list
        sum_list_zip_zeros)
next
  fix y
  assume "model2_feasible reduced_t24 y"
  then have len: "length y = 24" and nonneg: "\<forall>i<24. 0 \<le> y ! i"
    by (simp_all add: model2_at_24_iff)
  have "0 \<le> sum_list y"
    using len nonneg by (intro sum_list_nonneg) (auto simp add: in_set_conv_nth)
  moreover have "0 \<le> LOW_COST"
    by (simp add: LOW_COST_def)
  ultimately have "0 \<le> LOW_COST * sum_list y"
    by simp
  also have "\<dots> \<le> dot tarif_bleu y"
    using len nonneg by (rule dot_tarif_bleu_lower)
  also have "\<dots> = cost_charge reduced_t24 y"
    by (simp add: cost_charge_zero_rate cost_electricity_dot reduced_t24_fields)
  finally show "0 \<le> cost_charge reduced_t24 y" .
qed

lemma model1_minimum_at_24: "is_minimum (model1_feasible reduced_t24) (dot tarif_bleu) 2.4786"
proof -
  define lp_optimum :: "real list" where "lp_optimum = [0, 6.6, 6.6, 4.8] @ replicate 20 0"
  have len: "length lp_optimum = 24"
    by (simp add: lp_optimum_def)
  have entries: "\<forall>a \<in> set lp_optimum. 0 \<le> a \<and> a \<le> 6.6"
    by (simp add: lp_optimum_def)
  have total: "sum_list lp_optimum = 18"
    by (simp add: lp_optimum_def sum_list_replicate)
  have slots: "\<forall>i<24. 0 \<le> lp_optimum ! i \<and> lp_optimum ! i \<le> 6.6"
    using entries len by (metis nth_mem)
  have first: "lp_optimum ! 0 = 0"
    by (simp add: lp_optimum_def)
  have "\<forall>a \<in> set lp_optimum. 0 \<le> a"
    using entries by blast
  then have "0 \<le> sum_list (take i lp_optimum)"
    and "sum_list (take i lp_optimum) \<le> 18" for i
    using prefix_sum_nonneg [of lp_optimum i] total by simp_all
  then have "- 9 \<le> sum_list (take i lp_optimum) \<and> sum_list (take i lp_optimum) \<le> 21"
    for i
    by (simp add: order_trans [of "- 9" 0] order_trans [of _ 18 21])
  then have prefixes: "\<forall>i \<in> {1..<25}. - 9 \<le> sum_list (take i lp_optimum)
      \<and> sum_list (take i lp_optimum) \<le> 21"
    by blast
  have feasible: "model1_feasible reduced_t24 lp_optimum"
    unfolding model1_at_24_iff using len first slots total prefixes by simp
  have cost: "dot tarif_bleu lp_optimum = 2.4786"
    by (simp add: dot_def tarif_bleu_def lp_optimum_def LOW_COST_def HIGH_COST_def
        eval_nat_numeral)
  have least: "2.4786 \<le> dot tarif_bleu y" if "model1_feasible reduced_t24 y" for y
  proof -
    have len: "length y = 24" and nonneg: "\<forall>i<24. 0 \<le> y ! i"
      and charged: "18 \<le> sum_list y"
      using that by (simp_all add: model1_at_24_iff)
    have "2.4786 = LOW_COST * 18"
      by (simp add: LOW_COST_def)
    also have "\<dots> \<le> LOW_COST * sum_list y"
      using charged by (simp add: LOW_COST_def)
    also have "\<dots> \<le> dot tarif_bleu y"
      using len nonneg by (rule dot_tarif_bleu_lower)
    finally show ?thesis .
  qed
  show ?thesis
    unfolding is_minimum_def using feasible cost least by blast
qed

text \<open>
  C9 holds when the terminal row exists. With a window \<open>t_min \<le> t_max\<close>,
  \<open>0 < t_max < 24\<close>, a zero base rate and 24 prices, Model 2 and Model 1 have the same
  feasible set and the same objective, hence the same least cost
  (\<open>zero_degradation_same_problem\<close>). This covers the notebooks' \<open>t_max = 22\<close>.

  With \<open>t_max = 24\<close> the slice \<^verbatim>\<open>lb[T_MAX:]\<close> of Model 2 is empty and no row carries the
  target, while Model 1 still constrains \<^verbatim>\<open>variables[:T_MAX]\<close>. Then, with a zero base
  rate and a zero lower power bound, the least cost of Model 2 is \<open>0\<close> (no charge at
  all) and the least cost of Model 1 is \<open>2.4786\<close>.
\<close>

theorem reduction_fails_at_t_max_24:
  "is_minimum (model2_feasible reduced_t24) (cost_charge reduced_t24) 0
   \<and> objective reduced_t24 = Inr tarif_bleu
   \<and> is_minimum (model1_feasible reduced_t24) (dot tarif_bleu) 2.4786"
  using model2_minimum_at_24 model1_minimum_at_24 objective_costs [of reduced_t24]
  by (simp add: reduced_t24_fields length_tarif_bleu)

theorem reduction_fails_at_t_max_24_witness:
  "\<exists>x. model2_feasible reduced_t24 x \<and> cost_charge reduced_t24 x = 0
        \<and> \<not> model1_feasible reduced_t24 x"
proof -
  obtain x where x: "model2_feasible reduced_t24 x" "cost_charge reduced_t24 x = 0"
    using reduction_fails_at_t_max_24 unfolding is_minimum_def by blast
  have "dot tarif_bleu x = 0"
    using x(2) by (simp add: cost_charge_zero_rate cost_electricity_dot reduced_t24_fields)
  moreover have "2.4786 \<le> dot tarif_bleu x" if "model1_feasible reduced_t24 x"
    using reduction_fails_at_t_max_24 that unfolding is_minimum_def by blast
  ultimately have "\<not> model1_feasible reduced_t24 x"
    by fastforce
  with x show ?thesis
    by blast
qed

end
